theory Spec2Isabelle
  imports Complex_Main
begin

section \<open>Configuration constants (flappy\_bird.py, lines 9--24)\<close>

text \<open>
  Python integers are modelled as \<^typ>\<open>int\<close>. Python floats are modelled as
  \<^typ>\<open>real\<close>: arithmetic on them is exact here, rounding is not modelled.
\<close>

definition WIDTH :: int where "WIDTH = 480"
definition HEIGHT :: int where "HEIGHT = 700"
definition BIRD_X :: int where "BIRD_X = 100"
definition GRAVITY :: real where "GRAVITY = 0.45"
definition FLAP_POWER :: real where "FLAP_POWER = - 9.5"
definition TERMINAL_V :: real where "TERMINAL_V = 12"
definition PIPE_SPEED :: real where "PIPE_SPEED = 3.3"
definition PIPE_GAP :: int where "PIPE_GAP = 200"
definition PIPE_INTERVAL :: int where "PIPE_INTERVAL = 1700"
definition PIPE_WIDTH :: int where "PIPE_WIDTH = 88"
definition GROUND_HEIGHT :: int where "GROUND_HEIGHT = 100"

text \<open>\<^verbatim>\<open>def clamp(v, a, b): return max(a, min(b, v))\<close>\<close>

definition clamp :: "'a::linorder \<Rightarrow> 'a \<Rightarrow> 'a \<Rightarrow> 'a" where
  "clamp v a b = max a (min b v)"

section \<open>Bird (lines 80--116)\<close>

text \<open>
  The fields of \<^verbatim>\<open>Bird\<close> that take part in the simulation. The pre-rendered
  surface \<^verbatim>\<open>body\<close> is drawing state only and is left out.
\<close>

record bird =
  bird_x :: int
  bird_y :: real
  vel :: real
  angle :: real
  wing_phase :: real
  radius :: int

definition Bird_init :: bird where
  "Bird_init = \<lparr> bird_x = BIRD_X, bird_y = of_int (HEIGHT div 2), vel = 0, angle = 0,
                  wing_phase = 0, radius = 18 \<rparr>"

definition flap :: "bird \<Rightarrow> bird" where
  "flap b = b\<lparr> vel := FLAP_POWER, wing_phase := - 0.6 \<rparr>"

definition Bird_update :: "bird \<Rightarrow> real \<Rightarrow> bird" where
  "Bird_update b delta =
     (let v1 = vel b + GRAVITY;
          v2 = clamp v1 (- 999) TERMINAL_V;
          y2 = bird_y b + v2;
          a2 = clamp (- v2 * 3.5) (- 30) 80
      in b\<lparr> vel := v2, bird_y := y2, angle := a2,
            wing_phase := wing_phase b + delta * 8.0 \<rparr>)"

text \<open>
  A run of the kinematics: \<^verbatim>\<open>flap()\<close> and \<^verbatim>\<open>update(dt)\<close> calls in any order,
  and a run of updates alone, one per \<^verbatim>\<open>dt\<close> of a list.
\<close>

datatype bird_op = Flap | Update real

fun apply_op :: "bird \<Rightarrow> bird_op \<Rightarrow> bird" where
  "apply_op b Flap = flap b"
| "apply_op b (Update delta) = Bird_update b delta"

definition run_ops :: "bird \<Rightarrow> bird_op list \<Rightarrow> bird" where
  "run_ops b ops = foldl apply_op b ops"

definition updates :: "bird \<Rightarrow> real list \<Rightarrow> bird" where
  "updates b deltas = foldl Bird_update b deltas"

section \<open>Pipe (lines 165--194)\<close>

text \<open>
  The surfaces of a pipe are drawing state and are left out. \<^verbatim>\<open>Pipe(x)\<close> draws
  \<^verbatim>\<open>h_top\<close> with \<^verbatim>\<open>random.randint(80, total_h - PIPE_GAP - 80)\<close>; the value drawn
  is the second argument of \<open>Pipe_init\<close>, and \<open>randint_result\<close> is what the library
  promises of it (\<^verbatim>\<open>randint(a, b)\<close> returns \<open>N\<close> with \<open>a \<le> N \<le> b\<close>).
\<close>

record pipe =
  pipe_x :: real
  pipe_w :: int
  h_top :: int
  h_bottom :: int
  passed :: bool

definition total_h :: int where
  "total_h = HEIGHT - GROUND_HEIGHT"

definition randint_result :: "int \<Rightarrow> bool" where
  "randint_result r = (80 \<le> r \<and> r \<le> total_h - PIPE_GAP - 80)"

definition Pipe_init :: "real \<Rightarrow> int \<Rightarrow> pipe" where
  "Pipe_init x0 r =
     \<lparr> pipe_x = x0, pipe_w = PIPE_WIDTH, h_top = r, h_bottom = total_h - r - PIPE_GAP,
       passed = False \<rparr>"

definition Pipe_update :: "pipe \<Rightarrow> real \<Rightarrow> pipe" where
  "Pipe_update p delta = p\<lparr> pipe_x := pipe_x p - PIPE_SPEED \<rparr>"

text \<open>
  The arguments handed to \<^verbatim>\<open>pygame.Rect\<close>. The intersection test
  \<^verbatim>\<open>colliderect\<close> belongs to the library; the frame function below takes it as a
  parameter, and \<open>overlap\<close> is one instance, used where a frame is evaluated.
\<close>

record rect =
  rect_x :: real
  rect_y :: real
  rect_w :: real
  rect_h :: real

definition get_rect :: "bird \<Rightarrow> rect" where
  "get_rect b =
     \<lparr> rect_x = of_int (bird_x b - radius b), rect_y = bird_y b - of_int (radius b),
       rect_w = of_int (radius b * 2), rect_h = of_int (radius b * 2) \<rparr>"

definition get_top_rect :: "pipe \<Rightarrow> rect" where
  "get_top_rect p =
     \<lparr> rect_x = pipe_x p, rect_y = 0, rect_w = of_int (pipe_w p), rect_h = of_int (h_top p) \<rparr>"

definition get_bottom_rect :: "pipe \<Rightarrow> rect" where
  "get_bottom_rect p =
     (let bottom_y = h_top p + PIPE_GAP
      in \<lparr> rect_x = pipe_x p, rect_y = of_int bottom_y, rect_w = of_int (pipe_w p),
           rect_h = of_int (h_bottom p) \<rparr>)"

definition trunc :: "real \<Rightarrow> int" where
  "trunc r = (if 0 \<le> r then \<lfloor>r\<rfloor> else \<lceil>r\<rceil>)"

definition overlap :: "rect \<Rightarrow> rect \<Rightarrow> bool" where
  "overlap a b =
     (trunc (rect_x a) < trunc (rect_x b) + trunc (rect_w b) \<and>
      trunc (rect_y a) < trunc (rect_y b) + trunc (rect_h b) \<and>
      trunc (rect_x b) < trunc (rect_x a) + trunc (rect_w a) \<and>
      trunc (rect_y b) < trunc (rect_y a) + trunc (rect_h a))"

section \<open>High score file (lines 38--50)\<close>

text \<open>
  What the file system does is an input of the model: \<open>read_outcome\<close> says how
  \<^verbatim>\<open>open(HIGH_FILE, "r")\<close> and \<^verbatim>\<open>f.read()\<close> went, \<open>write_outcome\<close> how
  \<^verbatim>\<open>open(HIGH_FILE, "w")\<close> and \<^verbatim>\<open>f.write\<close> went. The file itself is a
  \<open>disk\<close>: its content, or \<open>None\<close> when it does not exist. Exceptions are values:
  a block that raises returns \<open>Inl\<close>.
\<close>

datatype py_exc = OSError | ValueError

datatype read_outcome = OpenError | ReadError | ReadOk string

datatype write_outcome = WriteOk | OpenFails | WriteFails

type_synonym disk = "string option"

definition isspace :: "char \<Rightarrow> bool" where
  "isspace c = (c \<in> set [CHR 0x09, CHR 0x0A, CHR 0x0B, CHR 0x0C, CHR 0x0D,
                          CHR 0x1C, CHR 0x1D, CHR 0x1E, CHR 0x1F, CHR 0x20])"

definition strip :: "string \<Rightarrow> string" where
  "strip s = rev (dropWhile isspace (rev (dropWhile isspace s)))"

text \<open>
  The body of the \<^verbatim>\<open>try\<close> in \<^verbatim>\<open>load_highscore\<close>. The builtin \<^verbatim>\<open>int\<close> applied
  to a string is the parameter \<open>parse\<close>: \<open>None\<close> where \<^verbatim>\<open>int\<close> raises ValueError.
  \<^verbatim>\<open>f.read().strip() or 0\<close> is \<open>0\<close> for the empty string, and \<^verbatim>\<open>int(0)\<close> is \<open>0\<close>.
\<close>

definition load_highscore_try :: "(string \<Rightarrow> int option) \<Rightarrow> read_outcome \<Rightarrow> py_exc + int" where
  "load_highscore_try parse rd =
     (case rd of
        OpenError \<Rightarrow> Inl OSError
      | ReadError \<Rightarrow> Inl OSError
      | ReadOk content \<Rightarrow>
          (let s = strip content
           in if s = [] then Inr 0
              else (case parse s of None \<Rightarrow> Inl ValueError | Some n \<Rightarrow> Inr n)))"

definition load_highscore :: "(string \<Rightarrow> int option) \<Rightarrow> read_outcome \<Rightarrow> py_exc + int" where
  "load_highscore parse rd =
     (case load_highscore_try parse rd of Inl e \<Rightarrow> Inr 0 | Inr n \<Rightarrow> Inr n)"

text \<open>\<^verbatim>\<open>str\<close> of an integer: decimal digits, a minus sign in front of a negative one.\<close>

fun str_nat :: "nat \<Rightarrow> string" where
  "str_nat n =
     (if n < 10 then [''0123456789'' ! n]
      else str_nat (n div 10) @ [''0123456789'' ! (n mod 10)])"

definition str_int :: "int \<Rightarrow> string" where
  "str_int i = (if i < 0 then CHR ''-'' # str_nat (nat (- i)) else str_nat (nat i))"

text \<open>
  The body of the \<^verbatim>\<open>try\<close> in \<^verbatim>\<open>save_highscore\<close>, with the disk it leaves:
  untouched when the file cannot be opened, truncated when the write fails after
  opening, holding \<^verbatim>\<open>str(int(v))\<close> otherwise. Then the function itself, whose
  \<^verbatim>\<open>except: pass\<close> turns every exception into a normal return.
\<close>

definition save_highscore_try :: "disk \<Rightarrow> int \<Rightarrow> write_outcome \<Rightarrow> disk \<times> (py_exc + unit)" where
  "save_highscore_try d v w =
     (case w of
        OpenFails \<Rightarrow> (d, Inl OSError)
      | WriteFails \<Rightarrow> (Some [], Inl OSError)
      | WriteOk \<Rightarrow> (Some (str_int v), Inr ()))"

definition save_highscore :: "disk \<Rightarrow> int \<Rightarrow> write_outcome \<Rightarrow> disk \<times> (py_exc + unit)" where
  "save_highscore d v w =
     (case save_highscore_try d v w of
        (d', Inl e) \<Rightarrow> (d', Inr ())
      | (d', Inr u) \<Rightarrow> (d', Inr u))"

text \<open>
  An instance of \<open>parse\<close> for evaluation: \<^verbatim>\<open>int\<close> on ASCII decimal text, an optional
  sign followed by digits, single underscores allowed between digits.
\<close>

definition digit_val :: "char \<Rightarrow> nat option" where
  "digit_val c =
     (let n = (of_char c :: nat) in if 48 \<le> n \<and> n \<le> 57 then Some (n - 48) else None)"

fun parse_digits :: "bool \<Rightarrow> nat \<Rightarrow> string \<Rightarrow> nat option" where
  "parse_digits after_digit acc [] = (if after_digit then Some acc else None)"
| "parse_digits after_digit acc (c # cs) =
     (if c = CHR ''_'' then (if after_digit then parse_digits False acc cs else None)
      else (case digit_val c of
              None \<Rightarrow> None
            | Some d \<Rightarrow> parse_digits True (acc * 10 + d) cs))"

definition py_int :: "string \<Rightarrow> int option" where
  "py_int s =
     (case strip s of
        [] \<Rightarrow> None
      | c # cs \<Rightarrow>
          if c = CHR ''-'' then map_option (\<lambda>n. - int n) (parse_digits False 0 cs)
          else if c = CHR ''+'' then map_option int (parse_digits False 0 cs)
          else map_option int (parse_digits False 0 (c # cs)))"

section \<open>The game loop (lines 220--315)\<close>

text \<open>
  The variables of \<^verbatim>\<open>run_game\<close>. Clouds and particles are decoration: nothing of
  the bird, the pipes, the score or the flags reads them, and they are left out,
  as is everything drawn.
\<close>

record game =
  bird :: bird
  pipes :: "pipe list"
  last_pipe_time :: int
  score :: int
  high :: int
  running :: bool
  started :: bool
  game_over :: bool

text \<open>
  The three session states of the specification, read off the two flags.
\<close>

datatype session = Idle | Running | GameOver

definition session_state :: "game \<Rightarrow> session" where
  "session_state g = (if game_over g then GameOver else if started g then Running else Idle)"

text \<open>
  The state before the first frame; \<open>t0\<close> is \<^verbatim>\<open>pygame.time.get_ticks()\<close> at line 226.
  An exception of \<^verbatim>\<open>load_highscore\<close> would leave \<^verbatim>\<open>run_game\<close>.
\<close>

definition init_game :: "(string \<Rightarrow> int option) \<Rightarrow> read_outcome \<Rightarrow> int \<Rightarrow> py_exc + game" where
  "init_game parse rd t0 =
     (case load_highscore parse rd of
        Inl e \<Rightarrow> Inl e
      | Inr h \<Rightarrow>
          Inr \<lparr> bird = Bird_init, pipes = [], last_pipe_time = t0 - PIPE_INTERVAL div 2,
                score = 0, high = h, running = True, started = False, game_over = False \<rparr>)"

text \<open>
  Events. Each event of a frame comes with the value \<^verbatim>\<open>pygame.time.get_ticks()\<close>
  returns while it is handled (read on a restart only).
\<close>

datatype key = K_ESCAPE | K_SPACE | K_r | K_other

datatype event = QUIT | KEYDOWN key | OTHER_EVENT

text \<open>Lines 254--260 and 262--268: the same seven assignments.\<close>

definition restart :: "game \<Rightarrow> int \<Rightarrow> game" where
  "restart g ticks =
     g\<lparr> pipes := [], last_pipe_time := ticks, score := 0, bird := Bird_init,
        started := True, game_over := False \<rparr>"

text \<open>Lines 243--260.\<close>

definition on_space :: "game \<Rightarrow> int \<Rightarrow> game" where
  "on_space g ticks =
     (let g1 = (if \<not> started g then g\<lparr> started := True, bird := Bird_init \<rparr> else g)
      in if \<not> game_over g1 then g1\<lparr> bird := flap (bird g1) \<rparr> else restart g1 ticks)"

text \<open>Lines 243--268, for a key other than escape.\<close>

definition on_key :: "game \<Rightarrow> key \<Rightarrow> int \<Rightarrow> game" where
  "on_key g k ticks =
     (let g1 = (if k = K_SPACE then on_space g ticks else g)
      in if k = K_r \<and> game_over g1 then restart g1 ticks else g1)"

text \<open>Lines 235--268; \<^verbatim>\<open>break\<close> leaves the remaining events of the frame unread.\<close>

fun process_events :: "game \<Rightarrow> (event \<times> int) list \<Rightarrow> game" where
  "process_events g [] = g"
| "process_events g ((QUIT, ticks) # evs) = g\<lparr> running := False \<rparr>"
| "process_events g ((KEYDOWN k, ticks) # evs) =
     (if k = K_ESCAPE then g\<lparr> running := False \<rparr>
      else process_events (on_key g k ticks) evs)"
| "process_events g ((OTHER_EVENT, ticks) # evs) = process_events g evs"

text \<open>Lines 275--278; \<open>r\<close> is the value \<^verbatim>\<open>random.randint\<close> returns if a pipe is made.\<close>

definition spawn_pipes :: "game \<Rightarrow> int \<Rightarrow> int \<Rightarrow> game" where
  "spawn_pipes g now r =
     (if started g \<and> \<not> game_over g \<and> now - last_pipe_time g > PIPE_INTERVAL
      then g\<lparr> last_pipe_time := now, pipes := pipes g @ [Pipe_init (of_int (WIDTH + 20)) r] \<rparr>
      else g)"

text \<open>Line 286: the test that makes a pipe score.\<close>

definition scores :: "int \<Rightarrow> pipe \<Rightarrow> bool" where
  "scores bx p = (\<not> passed p \<and> pipe_x p + of_int (pipe_w p) < of_int bx)"

text \<open>
  Lines 281--290. The loop runs over \<^verbatim>\<open>list(pipes)\<close>, a copy made before it
  starts, while \<^verbatim>\<open>popleft\<close> removes the head of the deque itself. The pipes are
  objects shared by both, so the deque after the loop is the copy, each pipe as
  the loop left it, without its first \<open>pops\<close> elements. The loop state is the
  number of \<^verbatim>\<open>popleft\<close> calls so far, the score, the high score and the disk;
  \<open>wr i\<close> is how the write goes if the \<open>i\<close>-th pipe of the copy calls
  \<^verbatim>\<open>save_highscore\<close>. At most one \<^verbatim>\<open>popleft\<close> happens per pipe visited, so the
  deque is never empty when it is called. \<^verbatim>\<open>save_highscore\<close> returns normally
  on every input (shown with the properties of the high score file), so the loop
  goes on with the disk it leaves.
\<close>

type_synonym loop_state = "nat \<times> int \<times> int \<times> disk"

fun pipes_loop ::
  "(nat \<Rightarrow> write_outcome) \<Rightarrow> real \<Rightarrow> int \<Rightarrow> nat \<Rightarrow> pipe list \<Rightarrow> loop_state \<Rightarrow> pipe list \<times> loop_state" where
  "pipes_loop wr delta bx i [] st = ([], st)"
| "pipes_loop wr delta bx i (p # ps) (pops, sc, hi, d) =
     (let p1 = Pipe_update p delta;
          pops1 = (if pipe_x p1 + of_int (pipe_w p1) < - 60 then Suc pops else pops)
      in if scores bx p1
         then (let p2 = p1\<lparr> passed := True \<rparr>;
                   sc1 = sc + 1;
                   hi1 = max hi sc1;
                   d1 = fst (save_highscore d hi1 (wr i));
                   (ps', st') = pipes_loop wr delta bx (Suc i) ps (pops1, sc1, hi1, d1)
               in (p2 # ps', st'))
         else (let (ps', st') = pipes_loop wr delta bx (Suc i) ps (pops1, sc, hi, d)
               in (p1 # ps', st')))"

definition update_pipes :: "(nat \<Rightarrow> write_outcome) \<Rightarrow> real \<Rightarrow> game \<times> disk \<Rightarrow> game \<times> disk" where
  "update_pipes wr delta gd =
     (case gd of (g, d) \<Rightarrow>
        (case pipes_loop wr delta (bird_x (bird g)) 0 (pipes g) (0, score g, high g, d) of
           (ps', pops, sc, hi, d') \<Rightarrow>
             (g\<lparr> pipes := drop pops ps', score := sc, high := hi \<rparr>, d')))"

text \<open>Lines 293--297.\<close>

definition update_bird :: "game \<Rightarrow> real \<Rightarrow> game" where
  "update_bird g delta =
     (if started g \<and> \<not> game_over g then g\<lparr> bird := Bird_update (bird g) delta \<rparr>
      else g\<lparr> bird := (bird g)\<lparr> wing_phase := wing_phase (bird g) + delta * 4.0 \<rparr> \<rparr>)"

text \<open>
  Lines 306--315. The flag is set by the ground test or by the first pipe whose
  top or bottom rectangle meets the bird's; \<open>cr\<close> is \<^verbatim>\<open>colliderect\<close>.
\<close>

definition hits_pipe :: "(rect \<Rightarrow> rect \<Rightarrow> bool) \<Rightarrow> rect \<Rightarrow> pipe \<Rightarrow> bool" where
  "hits_pipe cr brect p = (cr brect (get_top_rect p) \<or> cr brect (get_bottom_rect p))"

definition collision :: "(rect \<Rightarrow> rect \<Rightarrow> bool) \<Rightarrow> game \<Rightarrow> game" where
  "collision cr g =
     (if started g \<and> \<not> game_over g
      then (let brect = get_rect (bird g);
                ground = (bird_y (bird g) + of_int (radius (bird g)) > of_int (HEIGHT - GROUND_HEIGHT))
            in if ground \<or> list_ex (hits_pipe cr brect) (pipes g)
               then g\<lparr> game_over := True \<rparr> else g)
      else g)"

text \<open>
  One pass through the body of \<^verbatim>\<open>while running\<close>. The inputs of a frame:
  \<^verbatim>\<open>clock.tick(FPS) / 1000.0\<close>, the events with their tick readings,
  \<^verbatim>\<open>get_ticks()\<close> at line 275, the \<^verbatim>\<open>randint\<close> value for a new pipe, and how
  each write to the high score file goes.
\<close>

record frame_in =
  in_dt :: real
  in_events :: "(event \<times> int) list"
  in_now :: int
  in_gap :: int
  in_write :: "nat \<Rightarrow> write_outcome"

definition frame :: "(rect \<Rightarrow> rect \<Rightarrow> bool) \<Rightarrow> frame_in \<Rightarrow> game \<times> disk \<Rightarrow> game \<times> disk" where
  "frame cr inp gd =
     (case gd of (g, d) \<Rightarrow>
        (let g1 = process_events g (in_events inp);
             g2 = spawn_pipes g1 (in_now inp) (in_gap inp);
             (g3, d3) = update_pipes (in_write inp) (in_dt inp) (g2, d);
             g4 = update_bird g3 (in_dt inp);
             g5 = collision cr g4
         in (g5, d3)))"

text \<open>The loop: frames are run while \<^verbatim>\<open>running\<close> holds.\<close>

fun run_frames :: "(rect \<Rightarrow> rect \<Rightarrow> bool) \<Rightarrow> frame_in list \<Rightarrow> game \<times> disk \<Rightarrow> game \<times> disk" where
  "run_frames cr [] gd = gd"
| "run_frames cr (inp # inps) gd =
     (if running (fst gd) then run_frames cr inps (frame cr inp gd) else gd)"

text \<open>
  The life of one pipe: what one pass of the loop body does to it, whether that
  pass raised the score, and the number of times a run of frames did.
\<close>

definition pipe_frame :: "int \<Rightarrow> real \<Rightarrow> pipe \<Rightarrow> pipe" where
  "pipe_frame bx delta p =
     (let p1 = Pipe_update p delta in if scores bx p1 then p1\<lparr> passed := True \<rparr> else p1)"

definition score_event :: "int \<Rightarrow> real \<Rightarrow> pipe \<Rightarrow> bool" where
  "score_event bx delta p = scores bx (Pipe_update p delta)"

fun score_events :: "int \<Rightarrow> real list \<Rightarrow> pipe \<Rightarrow> nat" where
  "score_events bx [] p = 0"
| "score_events bx (delta # deltas) p =
     (if score_event bx delta p then 1 else 0) + score_events bx deltas (pipe_frame bx delta p)"

text \<open>
  The same count on the game itself. \<open>before_loop\<close> is the state of a frame when
  the pipe loop starts, after the events and the spawn; \<open>loop_pops\<close> is the
  number of \<^verbatim>\<open>popleft\<close> calls of the frame's loop. \<open>pipe_score_count\<close> follows
  the pipe that stands at index \<open>i\<close> of the deque through a run of frames and
  counts the frames whose loop raises the score for it. The pipe's life ends when
  a restart empties the deque (the index is then past the end of the deque after
  the events) or when the loop pops it (the index is below the number of pops);
  otherwise the pipe stands \<open>loop_pops\<close> places further to the front in the
  state the frame leaves, and the count goes on from there.
\<close>

definition before_loop :: "frame_in \<Rightarrow> game \<Rightarrow> game" where
  "before_loop inp g = spawn_pipes (process_events g (in_events inp)) (in_now inp) (in_gap inp)"

definition loop_pops :: "frame_in \<Rightarrow> game \<times> disk \<Rightarrow> nat" where
  "loop_pops inp gd =
     (case gd of (g, d) \<Rightarrow>
        (let g2 = before_loop inp g
         in fst (snd (pipes_loop (in_write inp) (in_dt inp) (bird_x (bird g2)) 0 (pipes g2)
                        (0, score g2, high g2, d)))))"

fun pipe_score_count ::
  "(rect \<Rightarrow> rect \<Rightarrow> bool) \<Rightarrow> frame_in list \<Rightarrow> game \<times> disk \<Rightarrow> nat \<Rightarrow> nat" where
  "pipe_score_count cr [] gd i = 0"
| "pipe_score_count cr (inp # inps) gd i =
     (if \<not> running (fst gd) then 0
      else if length (pipes (process_events (fst gd) (in_events inp))) \<le> i then 0
      else (if score_event (bird_x (bird (before_loop inp (fst gd)))) (in_dt inp)
                 (pipes (before_loop inp (fst gd)) ! i)
            then 1 else 0)
           + (if i < loop_pops inp gd then 0
              else pipe_score_count cr inps (frame cr inp gd) (i - loop_pops inp gd)))"

section \<open>Sample inputs\<close>

text \<open>
  A state some frames after the bird flew into the top segment of the first pipe:
  the first pipe's right edge is at 102.9, still right of the bird's \<open>x\<close>, the
  second pipe follows 102 frames behind, nothing has scored yet. And the inputs
  of a frame in which no key is pressed. They are used where the functions above
  are evaluated.
\<close>

definition dead_game :: game where
  "dead_game =
     \<lparr> bird = \<lparr> bird_x = 100, bird_y = 120, vel = 3.1, angle = - 10.85, wing_phase = 0,
                radius = 18 \<rparr>,
       pipes = [(Pipe_init 500 300)\<lparr> pipe_x := 14.9 \<rparr>, (Pipe_init 500 150)\<lparr> pipe_x := 351.5 \<rparr>],
       last_pipe_time = 4000, score = 0, high = 0,
       running = True, started = True, game_over = True \<rparr>"

definition quiet_frame :: frame_in where
  "quiet_frame =
     \<lparr> in_dt = 1 / 60, in_events = [], in_now = 6000, in_gap = 200, in_write = (\<lambda>i. WriteOk) \<rparr>"

section \<open>Entity kinematics\<close>

lemmas config_defs =
  WIDTH_def HEIGHT_def BIRD_X_def GRAVITY_def FLAP_POWER_def TERMINAL_V_def
  PIPE_SPEED_def PIPE_GAP_def PIPE_INTERVAL_def PIPE_WIDTH_def GROUND_HEIGHT_def

text \<open>
  C2. \<^verbatim>\<open>flap()\<close> overwrites the velocity with the impulse constant whatever the
  velocity was before, and a second \<^verbatim>\<open>flap()\<close> changes nothing: the bird after two
  flaps is the bird after one.
\<close>

theorem flap_overwrites_velocity:
  "vel (flap b) = FLAP_POWER \<and> vel (flap (flap b)) = vel (flap b) \<and> flap (flap b) = flap b"
  by (simp add: flap_def)

theorem flap_overwrites_velocity_witness:
  "vel (flap (Bird_init\<lparr> vel := 7 \<rparr>)) = - 9.5 \<and>
   vel (flap (flap (Bird_init\<lparr> vel := 7 \<rparr>))) = - 9.5"
  using flap_overwrites_velocity [of "Bird_init\<lparr> vel := 7 \<rparr>"]
  by (simp add: FLAP_POWER_def)

subsection \<open>One update\<close>

lemma vel_Bird_update:
  "vel (Bird_update b d) = max (- 999) (min TERMINAL_V (vel b + GRAVITY))"
  by (simp add: Bird_update_def clamp_def Let_def)

text \<open>
  C3, as the code has it. \<^verbatim>\<open>update(dt)\<close> adds the gravity constant to the
  velocity and clamps the sum to the interval from \<open>-999\<close> to the terminal velocity;
  it adds the new velocity to the vertical position and sets the angle to the new
  velocity times \<open>-3.5\<close>, clamped to the interval from \<open>-30\<close> to \<open>80\<close>. The lower
  bound \<open>-999\<close> binds only below \<open>-999 - GRAVITY\<close>: from there upwards the new
  velocity is the sum, bounded above by the terminal velocity and not bounded
  below.
\<close>

theorem Bird_update_kinematics:
  "vel (Bird_update b d) = max (- 999) (min TERMINAL_V (vel b + GRAVITY)) \<and>
   bird_y (Bird_update b d) = bird_y b + vel (Bird_update b d) \<and>
   angle (Bird_update b d) = max (- 30) (min 80 (- vel (Bird_update b d) * 3.5)) \<and>
   (- 999 - GRAVITY \<le> vel b \<longrightarrow> vel (Bird_update b d) = min TERMINAL_V (vel b + GRAVITY))"
  by (simp add: Bird_update_def clamp_def Let_def TERMINAL_V_def GRAVITY_def)

theorem Bird_update_kinematics_witness:
  "- 999 - GRAVITY \<le> vel (flap Bird_init) \<and>
   vel (Bird_update (flap Bird_init) (1 / 60)) = - 9.05 \<and>
   bird_y (Bird_update (flap Bird_init) (1 / 60)) = 340.95 \<and>
   angle (Bird_update (flap Bird_init) (1 / 60)) = 31.675"
  using Bird_update_kinematics [of "flap Bird_init" "1 / 60"]
  by (simp add: flap_def Bird_init_def config_defs)

text \<open>
  C3, as the claim has it, fails below the lower bound: from velocity \<open>-2000\<close> the
  sum clamped from above only is \<open>-1999.55\<close>, and the code sets \<open>-999\<close>.
\<close>

theorem Bird_update_lower_clamp_counterexample:
  "vel (Bird_update (Bird_init\<lparr> vel := - 2000 \<rparr>) (1 / 60)) = - 999 \<and>
   min TERMINAL_V (vel (Bird_init\<lparr> vel := - 2000 \<rparr>) + GRAVITY) = - 1999.55 \<and>
   vel (Bird_update (Bird_init\<lparr> vel := - 2000 \<rparr>) (1 / 60))
     \<noteq> min TERMINAL_V (vel (Bird_init\<lparr> vel := - 2000 \<rparr>) + GRAVITY)"
  by (simp add: Bird_update_def clamp_def Let_def Bird_init_def config_defs)

subsection \<open>Repeated updates\<close>

lemma updates_snoc: "updates b (ds @ [d]) = Bird_update (updates b ds) d"
  by (simp add: updates_def)

lemma updates_append: "updates b (ds @ es) = updates (updates b ds) es"
  by (simp add: updates_def)

lemma vel_update_le_terminal: "vel (Bird_update b d) \<le> TERMINAL_V"
  by (simp add: vel_Bird_update TERMINAL_V_def)

lemma vel_update_ge_floor: "- 999 \<le> vel (Bird_update b d)"
  by (simp add: vel_Bird_update)

lemma vel_update_mono: "vel b \<le> TERMINAL_V \<Longrightarrow> vel b \<le> vel (Bird_update b d)"
  by (simp add: vel_Bird_update GRAVITY_def TERMINAL_V_def max_def min_def)

lemma vel_update_strict: "vel b < TERMINAL_V \<Longrightarrow> vel b < vel (Bird_update b d)"
  by (simp add: vel_Bird_update GRAVITY_def TERMINAL_V_def max_def min_def)

lemma vel_update_terminal: "vel b = TERMINAL_V \<Longrightarrow> vel (Bird_update b d) = TERMINAL_V"
  by (simp add: vel_Bird_update GRAVITY_def TERMINAL_V_def max_def min_def)

lemma vel_updates_terminal: "vel b = TERMINAL_V \<Longrightarrow> vel (updates b ds) = TERMINAL_V"
proof (induction ds rule: rev_induct)
  case Nil
  then show ?case by (simp add: updates_def)
next
  case (snoc d ds)
  then show ?case by (simp add: updates_snoc vel_update_terminal)
qed

lemma vel_updates_le_terminal: "ds \<noteq> [] \<Longrightarrow> vel (updates b ds) \<le> TERMINAL_V"
  by (cases ds rule: rev_cases) (simp_all add: updates_snoc vel_update_le_terminal)

lemma vel_updates_lower:
  "min TERMINAL_V (- 999 + GRAVITY * real (length ds)) \<le> vel (updates b (d # ds))"
proof (induction ds rule: rev_induct)
  case Nil
  have "updates b [d] = Bird_update b d" by (simp add: updates_def)
  then show ?case using vel_update_ge_floor [of b d] by (simp add: min_def)
next
  case (snoc e ds)
  have eq: "updates b (d # ds @ [e]) = Bird_update (updates b (d # ds)) e"
    using updates_snoc [of b "d # ds" e] by simp
  show ?case
    using snoc.IH unfolding eq vel_Bird_update
    by (simp add: GRAVITY_def TERMINAL_V_def min_def max_def algebra_simps split: if_splits)
qed

lemma vel_updates_reaches:
  assumes "2248 \<le> length ds"
  shows "vel (updates b ds) = TERMINAL_V"
proof -
  from assms obtain d es where ds: "ds = d # es" by (cases ds) auto
  with assms have len: "2247 \<le> length es" by simp
  then have "(2247::real) \<le> real (length es)" by linarith
  then have "TERMINAL_V \<le> - 999 + GRAVITY * real (length es)"
    by (simp add: GRAVITY_def TERMINAL_V_def)
  then have "TERMINAL_V \<le> vel (updates b (d # es))"
    using vel_updates_lower [of es b d] by (simp add: min_def split: if_splits)
  moreover have "vel (updates b (d # es)) \<le> TERMINAL_V"
    by (rule vel_updates_le_terminal) simp
  ultimately show ?thesis by (simp add: ds)
qed

lemma vel_updates_bounded:
  "vel b \<le> TERMINAL_V \<Longrightarrow> vel (updates b ds) \<le> TERMINAL_V"
proof (induction ds rule: rev_induct)
  case Nil
  then show ?case by (simp add: updates_def)
next
  case (snoc d ds)
  show ?case by (simp add: updates_snoc vel_update_le_terminal)
qed

text \<open>
  C4, as the claim has it, fails for a starting velocity above the terminal
  velocity: from velocity \<open>20\<close> the first update yields \<open>12\<close>, so the velocity
  goes down.
\<close>

theorem updates_from_above_terminal_counterexample:
  "vel (Bird_init\<lparr> vel := 20 \<rparr>) = 20 \<and>
   vel (updates (Bird_init\<lparr> vel := 20 \<rparr>) [1 / 60]) = 12 \<and>
   vel (updates (Bird_init\<lparr> vel := 20 \<rparr>) [1 / 60]) < vel (Bird_init\<lparr> vel := 20 \<rparr>)"
  by (simp add: updates_def Bird_update_def clamp_def Let_def Bird_init_def config_defs)

text \<open>
  C4, as the code has it. Take any list of \<^verbatim>\<open>dt\<close> values and any starting bird
  whose velocity is at most the terminal velocity, and update once per value with
  no flap in between. The velocity never decreases from one step to the next, the
  step from the starting velocity included; it increases strictly as long as it
  is below the terminal velocity; once it equals the terminal velocity it equals
  it after every further update; and it does equal it after 2248 updates at the
  latest. From a starting velocity above the terminal velocity the first update
  yields the terminal velocity, and so does every later one.
\<close>

theorem updates_velocity_sequence:
  "(vel b \<le> TERMINAL_V \<longrightarrow>
      vel (updates b ds) \<le> vel (updates b (ds @ [e])) \<and>
      (vel (updates b ds) < TERMINAL_V \<longrightarrow> vel (updates b ds) < vel (updates b (ds @ [e]))) \<and>
      (vel (updates b ds) = TERMINAL_V \<longrightarrow> vel (updates b (ds @ es)) = TERMINAL_V) \<and>
      (2248 \<le> length ds \<longrightarrow> vel (updates b ds) = TERMINAL_V)) \<and>
   (TERMINAL_V < vel b \<longrightarrow>
      vel (updates b [e]) = TERMINAL_V \<and> vel (updates b (e # es)) = TERMINAL_V)"
proof (intro conjI impI)
  assume start: "vel b \<le> TERMINAL_V"
  then have le: "vel (updates b ds) \<le> TERMINAL_V" by (rule vel_updates_bounded)
  then show "vel (updates b ds) \<le> vel (updates b (ds @ [e]))"
    by (simp add: updates_snoc vel_update_mono)
next
  assume "vel (updates b ds) < TERMINAL_V"
  then show "vel (updates b ds) < vel (updates b (ds @ [e]))"
    by (simp add: updates_snoc vel_update_strict)
next
  assume "vel (updates b ds) = TERMINAL_V"
  then show "vel (updates b (ds @ es)) = TERMINAL_V"
    by (simp add: updates_append vel_updates_terminal)
next
  assume "2248 \<le> length ds"
  then show "vel (updates b ds) = TERMINAL_V" by (rule vel_updates_reaches)
next
  assume above: "TERMINAL_V < vel b"
  then show first: "vel (updates b [e]) = TERMINAL_V"
    by (simp add: updates_def vel_Bird_update GRAVITY_def TERMINAL_V_def)
  have "updates b (e # es) = updates (updates b [e]) es"
    using updates_append [of b "[e]" es] by simp
  then show "vel (updates b (e # es)) = TERMINAL_V"
    using first by (simp add: vel_updates_terminal)
qed

theorem updates_velocity_sequence_witness:
  "vel Bird_init \<le> TERMINAL_V \<and>
   vel (updates Bird_init [1 / 60]) < vel (updates Bird_init ([1 / 60] @ [1 / 30])) \<and>
   vel Bird_init < vel (updates Bird_init ([] @ [1 / 60])) \<and>
   vel (updates (Bird_init\<lparr> vel := 12 \<rparr>) ([] @ [1 / 50, 1 / 40])) = 12 \<and>
   vel (updates Bird_init (replicate 2248 (1 / 60))) = 12 \<and>
   vel (updates (Bird_init\<lparr> vel := 20 \<rparr>) [1 / 60, 1 / 50, 1 / 40]) = 12"
proof -
  let ?top = "Bird_init\<lparr> vel := 12 \<rparr>"
  let ?fast = "Bird_init\<lparr> vel := 20 \<rparr>"
  have s0: "vel Bird_init \<le> TERMINAL_V" by (simp add: Bird_init_def TERMINAL_V_def)
  have s1: "vel (updates Bird_init [1 / 60]) < TERMINAL_V"
    by (simp add: updates_def Bird_update_def clamp_def Let_def Bird_init_def config_defs)
  have s2: "vel (updates Bird_init [1 / 60]) < vel (updates Bird_init ([1 / 60] @ [1 / 30]))"
    using updates_velocity_sequence [of Bird_init "[1 / 60]" "1 / 30"] s0 s1 by blast
  have z: "vel (updates Bird_init []) < TERMINAL_V"
    by (simp add: updates_def Bird_init_def TERMINAL_V_def)
  have s3: "vel Bird_init < vel (updates Bird_init ([] @ [1 / 60]))"
    using updates_velocity_sequence [of Bird_init "[]" "1 / 60"] s0 z
    by (simp add: updates_def)
  have t0: "vel ?top \<le> TERMINAL_V" "vel (updates ?top []) = TERMINAL_V"
    by (simp_all add: updates_def TERMINAL_V_def)
  have t1: "vel (updates ?top ([] @ [1 / 50, 1 / 40])) = TERMINAL_V"
    using updates_velocity_sequence [of ?top "[]" _ "[1 / 50, 1 / 40]"] t0 by blast
  have r: "vel (updates Bird_init (replicate 2248 (1 / 60))) = TERMINAL_V"
    using updates_velocity_sequence [of Bird_init "replicate 2248 (1 / 60)"] s0 by simp
  have f: "TERMINAL_V < vel ?fast" by (simp add: TERMINAL_V_def)
  have v: "vel (updates ?fast [1 / 60, 1 / 50, 1 / 40]) = TERMINAL_V"
    using updates_velocity_sequence [of ?fast _ "1 / 60" "[1 / 50, 1 / 40]"] f by blast
  show ?thesis using s0 s2 s3 t1 r v by (simp add: TERMINAL_V_def)
qed

subsection \<open>Reachable velocities\<close>

lemma run_ops_snoc: "run_ops b (ops @ [x]) = apply_op (run_ops b ops) x"
  by (simp add: run_ops_def)

lemma reachable_vel_invariant:
  "FLAP_POWER \<le> vel (run_ops Bird_init ops) \<and> vel (run_ops Bird_init ops) \<le> TERMINAL_V"
proof (induction ops rule: rev_induct)
  case Nil
  show ?case by (simp add: run_ops_def Bird_init_def FLAP_POWER_def TERMINAL_V_def)
next
  case (snoc x ops)
  show ?case
  proof (cases x)
    case Flap
    then show ?thesis
      by (simp add: run_ops_snoc flap_def FLAP_POWER_def TERMINAL_V_def)
  next
    case (Update d)
    then show ?thesis
      using snoc.IH
      by (simp add: run_ops_snoc vel_Bird_update FLAP_POWER_def TERMINAL_V_def GRAVITY_def)
  qed
qed

text \<open>
  C10. Start from the initial bird (velocity 0) and apply flaps and updates in
  any order. The velocity right after an update lies between the flap impulse
  \<open>-9.5\<close> and the terminal velocity \<open>12\<close>. The lower bound \<open>-999\<close> of the clamp in
  \<^verbatim>\<open>update\<close> never binds: the velocity plus gravity is above it, and the update
  sets the smaller of that sum and the terminal velocity.
\<close>

theorem reachable_velocity_bounds:
  "FLAP_POWER = - 9.5 \<and> TERMINAL_V = 12 \<and>
   FLAP_POWER \<le> vel (Bird_update (run_ops Bird_init ops) d) \<and>
   vel (Bird_update (run_ops Bird_init ops) d) \<le> TERMINAL_V \<and>
   - 999 < vel (run_ops Bird_init ops) + GRAVITY \<and>
   vel (Bird_update (run_ops Bird_init ops) d) = min TERMINAL_V (vel (run_ops Bird_init ops) + GRAVITY)"
  using reachable_vel_invariant [of ops]
  by (simp add: vel_Bird_update FLAP_POWER_def TERMINAL_V_def GRAVITY_def)

theorem reachable_velocity_bounds_witness:
  "vel (Bird_update (run_ops Bird_init [Update (1 / 60), Flap, Flap]) (1 / 60)) = - 9.05 \<and>
   - 9.5 \<le> vel (Bird_update (run_ops Bird_init [Update (1 / 60), Flap, Flap]) (1 / 60)) \<and>
   vel (Bird_update (run_ops Bird_init [Update (1 / 60), Flap, Flap]) (1 / 60)) \<le> 12"
  using reachable_velocity_bounds [of "[Update (1 / 60), Flap, Flap]" "1 / 60"]
  by (simp add: run_ops_def flap_def GRAVITY_def)

section \<open>Pipes\<close>

text \<open>
  C5. Every pipe \<^verbatim>\<open>Pipe(x)\<close> builds, whatever value \<^verbatim>\<open>randint\<close> returns within
  its bounds: the top segment is at least 80 high, so is what is left below the
  gap, which is the bottom segment, and top segment, gap and bottom segment add
  up to the height of the playfield above the ground. The game makes pipes in
  no other way: the spawn step leaves the deque alone or appends one such pipe.
\<close>

theorem Pipe_init_gap_clearance:
  "randint_result r \<Longrightarrow>
     80 \<le> h_top (Pipe_init x0 r) \<and>
     80 \<le> total_h - h_top (Pipe_init x0 r) - PIPE_GAP \<and>
     80 \<le> h_bottom (Pipe_init x0 r) \<and>
     h_top (Pipe_init x0 r) + PIPE_GAP + h_bottom (Pipe_init x0 r) = total_h \<and>
     (pipes (spawn_pipes g now r) = pipes g \<or>
      pipes (spawn_pipes g now r) = pipes g @ [Pipe_init (of_int (WIDTH + 20)) r])"
  by (simp add: randint_result_def Pipe_init_def spawn_pipes_def)

theorem Pipe_init_gap_clearance_witness:
  "randint_result 300 \<and> total_h = 600 \<and> h_top (Pipe_init 500 300) = 300 \<and>
   h_bottom (Pipe_init 500 300) = 100 \<and>
   rect_y (get_bottom_rect (Pipe_init 500 300)) = 500 \<and>
   rect_h (get_bottom_rect (Pipe_init 500 300)) = 100"
proof -
  have r: "randint_result 300" by (simp add: randint_result_def total_h_def config_defs)
  show ?thesis
    using r Pipe_init_gap_clearance [OF r, of 500]
    by (simp add: total_h_def config_defs get_bottom_rect_def Pipe_init_def)
qed

section \<open>The pipe loop and the frame\<close>

lemma pipes_loop_pipes:
  "fst (pipes_loop wr d bx i ps st) = map (pipe_frame bx d) ps"
proof (induction ps arbitrary: i st)
  case Nil
  show ?case by simp
next
  case (Cons p ps)
  obtain k sc hi dk where st: "st = (k, sc, hi, dk)" by (cases st) auto
  show ?case
    unfolding st
    by (simp add: Let_def case_prod_beta Cons.IH pipe_frame_def)
qed

lemma pipes_loop_score:
  "fst (snd (snd (pipes_loop wr d bx i ps (k, sc, hi, dk)))) =
     sc + int (length (filter (score_event bx d) ps))"
proof (induction ps arbitrary: i k sc hi dk)
  case Nil
  show ?case by simp
next
  case (Cons p ps)
  show ?case
    by (simp add: Let_def case_prod_beta Cons.IH score_event_def)
qed

lemma pipes_loop_high:
  "hi \<le> fst (snd (snd (snd (pipes_loop wr d bx i ps (k, sc, hi, dk)))))"
proof (induction ps arbitrary: i k sc hi dk)
  case Nil
  show ?case by simp
next
  case (Cons p ps)
  have step: "max hi (sc + 1) \<le> fst (snd (snd (snd (pipes_loop wr d bx (Suc i) ps (k', sc + 1, max hi (sc + 1), dk')))))"
    for k' dk'
    by (rule Cons.IH)
  show ?case
    using step Cons.IH
    by (simp add: Let_def case_prod_beta) (meson max.bounded_iff)
qed

lemma pipes_loop_game_part:
  "fst (pipes_loop wr d bx i ps (k, sc, hi, dk)) = fst (pipes_loop wr' d bx i' ps (k, sc, hi, dk')) \<and>
   fst (snd (pipes_loop wr d bx i ps (k, sc, hi, dk))) = fst (snd (pipes_loop wr' d bx i' ps (k, sc, hi, dk'))) \<and>
   fst (snd (snd (pipes_loop wr d bx i ps (k, sc, hi, dk)))) = fst (snd (snd (pipes_loop wr' d bx i' ps (k, sc, hi, dk')))) \<and>
   fst (snd (snd (snd (pipes_loop wr d bx i ps (k, sc, hi, dk))))) = fst (snd (snd (snd (pipes_loop wr' d bx i' ps (k, sc, hi, dk')))))"
proof (induction ps arbitrary: i i' k sc hi dk dk')
  case Nil
  show ?case by simp
next
  case (Cons p ps)
  show ?case
    using Cons.IH
    by (simp add: Let_def case_prod_beta)
qed

lemma high_restart: "high (restart g t) = high g"
  by (simp add: restart_def)

lemma high_on_key: "high (on_key g k t) = high g"
  by (simp add: on_key_def on_space_def restart_def Let_def)

lemma high_process_events: "high (process_events g evs) = high g"
  by (induction g evs rule: process_events.induct) (simp_all add: high_on_key)

lemma high_spawn_pipes: "high (spawn_pipes g now r) = high g"
  by (simp add: spawn_pipes_def)

lemma high_update_bird: "high (update_bird g d) = high g"
  by (simp add: update_bird_def)

lemma high_collision: "high (collision cr g) = high g"
  by (simp add: collision_def Let_def)

lemma update_pipes_fields:
  "pipes (fst (update_pipes wr d (g, dk))) =
     drop (fst (snd (pipes_loop wr d (bird_x (bird g)) 0 (pipes g) (0, score g, high g, dk))))
       (map (pipe_frame (bird_x (bird g)) d) (pipes g)) \<and>
   score (fst (update_pipes wr d (g, dk))) =
     score g + int (length (filter (score_event (bird_x (bird g)) d) (pipes g))) \<and>
   high (fst (update_pipes wr d (g, dk))) =
     fst (snd (snd (snd (pipes_loop wr d (bird_x (bird g)) 0 (pipes g) (0, score g, high g, dk))))) \<and>
   bird (fst (update_pipes wr d (g, dk))) = bird g \<and>
   started (fst (update_pipes wr d (g, dk))) = started g \<and>
   game_over (fst (update_pipes wr d (g, dk))) = game_over g \<and>
   running (fst (update_pipes wr d (g, dk))) = running g \<and>
   last_pipe_time (fst (update_pipes wr d (g, dk))) = last_pipe_time g"
  using pipes_loop_pipes [of wr d "bird_x (bird g)" 0 "pipes g" "(0, score g, high g, dk)"]
        pipes_loop_score [of wr d "bird_x (bird g)" 0 "pipes g" 0 "score g" "high g" dk]
  by (simp add: update_pipes_def case_prod_beta)

lemma high_update_pipes: "high g \<le> high (fst (update_pipes wr d (g, dk)))"
  using pipes_loop_high [of "high g" wr d "bird_x (bird g)" 0 "pipes g" 0 "score g" dk]
  by (simp add: update_pipes_fields)

lemma update_pipes_game_part:
  "fst (update_pipes wr d (g, dk)) = fst (update_pipes wr' d (g, dk'))"
  using pipes_loop_game_part [of wr d "bird_x (bird g)" 0 "pipes g" 0 "score g" "high g" dk wr' 0 dk']
  by (simp add: update_pipes_def case_prod_beta)

lemma frame_fst:
  "fst (frame cr inp (g, dk)) =
     collision cr (update_bird
       (fst (update_pipes (in_write inp) (in_dt inp)
          (spawn_pipes (process_events g (in_events inp)) (in_now inp) (in_gap inp), dk)))
       (in_dt inp))"
  by (simp add: frame_def Let_def case_prod_beta)

lemma high_frame: "high g \<le> high (fst (frame cr inp (g, dk)))"
proof -
  let ?g2 = "spawn_pipes (process_events g (in_events inp)) (in_now inp) (in_gap inp)"
  have "high g = high ?g2" by (simp add: high_spawn_pipes high_process_events)
  also have "\<dots> \<le> high (fst (update_pipes (in_write inp) (in_dt inp) (?g2, dk)))"
    by (rule high_update_pipes)
  finally show ?thesis
    by (simp add: frame_fst high_collision high_update_bird)
qed

lemma high_run_frames: "high (fst gd) \<le> high (fst (run_frames cr inps gd))"
proof (induction inps arbitrary: gd)
  case Nil
  show ?case by simp
next
  case (Cons inp inps)
  obtain g dk where gd: "gd = (g, dk)" by (cases gd)
  have "high g \<le> high (fst (frame cr inp (g, dk)))" by (rule high_frame)
  also have "\<dots> \<le> high (fst (run_frames cr inps (frame cr inp (g, dk))))" by (rule Cons.IH)
  finally show ?case by (simp add: gd)
qed

lemma frame_game_part:
  "fst (frame cr (inp\<lparr> in_write := wr' \<rparr>) (g, dk')) = fst (frame cr inp (g, dk))"
  using update_pipes_game_part [of wr' "in_dt inp" _ dk' "in_write inp" dk]
  by (simp add: frame_fst)

lemma dead_frame:
  "frame overlap quiet_frame (dead_game, None) =
     (dead_game\<lparr> pipes := [(Pipe_init 500 300)\<lparr> pipe_x := 11.6, passed := True \<rparr>,
                           (Pipe_init 500 150)\<lparr> pipe_x := 348.2 \<rparr>],
                 score := 1, high := 1,
                 bird := (bird dead_game)\<lparr> wing_phase := 1 / 15 \<rparr> \<rparr>, Some ''1'')"
  by (simp add: frame_def quiet_frame_def dead_game_def spawn_pipes_def update_pipes_def
      update_bird_def collision_def Let_def scores_def Pipe_update_def Pipe_init_def
      Bird_init_def save_highscore_def save_highscore_try_def str_int_def config_defs total_h_def)

section \<open>Best score\<close>

text \<open>
  C6. The best score held in memory never goes down: after a frame it is at
  least what it was before the frame, whatever the state, the events, the clock,
  the random value and the file system do; so it is after any run of frames.
\<close>

theorem best_score_monotone:
  "high g \<le> high (fst (frame cr inp (g, dk))) \<and>
   high g \<le> high (fst (run_frames cr inps (g, dk)))"
  using high_frame [of g cr inp dk] high_run_frames [of "(g, dk)" cr inps]
  by simp

theorem best_score_monotone_witness:
  "high dead_game = 0 \<and> high (fst (frame overlap quiet_frame (dead_game, None))) = 1 \<and>
   high dead_game \<le> high (fst (frame overlap quiet_frame (dead_game, None))) \<and>
   high dead_game \<le> high (fst (run_frames overlap [quiet_frame] (dead_game, None)))"
  using best_score_monotone [of dead_game overlap quiet_frame None "[quiet_frame]"]
  by (simp add: dead_frame) (simp add: dead_game_def)

section \<open>Scoring\<close>

lemma score_event_iff:
  "score_event bx d p \<longleftrightarrow> \<not> passed p \<and> pipe_x p - PIPE_SPEED + of_int (pipe_w p) < of_int bx"
  by (simp add: score_event_def scores_def Pipe_update_def)

lemma score_event_sets_passed: "score_event bx d p \<Longrightarrow> passed (pipe_frame bx d p)"
  by (simp add: score_event_def pipe_frame_def Let_def)

lemma passed_pipe_frame: "passed p \<Longrightarrow> passed (pipe_frame bx d p)"
  by (simp add: pipe_frame_def Let_def scores_def Pipe_update_def)

lemma passed_no_score_event: "passed p \<Longrightarrow> \<not> score_event bx d p"
  by (simp add: score_event_iff)

lemma passed_score_events: "passed p \<Longrightarrow> score_events bx ds p = 0"
  by (induction ds arbitrary: p) (simp_all add: passed_no_score_event passed_pipe_frame)

lemma score_events_le_1: "score_events bx ds p \<le> 1"
proof (induction ds arbitrary: p)
  case Nil
  show ?case by simp
next
  case (Cons d ds)
  show ?case
  proof (cases "score_event bx d p")
    case True
    then have "score_events bx ds (pipe_frame bx d p) = 0"
      by (simp add: passed_score_events score_event_sets_passed)
    with True show ?thesis by simp
  next
    case False
    then show ?thesis using Cons.IH [of "pipe_frame bx d p"] by simp
  qed
qed

lemma pipes_on_key: "pipes (on_key g k t) = pipes g \<or> pipes (on_key g k t) = []"
  by (simp add: on_key_def on_space_def restart_def Let_def)

lemma pipes_process_events:
  "pipes (process_events g evs) = pipes g \<or> pipes (process_events g evs) = []"
proof (induction g evs rule: process_events.induct)
  case (3 g k ticks evs)
  show ?case
  proof (cases "k = K_ESCAPE")
    case True
    then show ?thesis by simp
  next
    case False
    with 3 have "pipes (process_events (on_key g k ticks) evs) = pipes (on_key g k ticks) \<or>
        pipes (process_events (on_key g k ticks) evs) = []" by simp
    with pipes_on_key [of g k ticks] False show ?thesis by auto
  qed
qed simp_all

lemma pipes_before_loop_nth:
  "i < length (pipes (process_events g (in_events inp))) \<Longrightarrow>
     pipes (before_loop inp g) ! i = pipes g ! i \<and> i < length (pipes g) \<and>
     i < length (pipes (before_loop inp g))"
  using pipes_process_events [of g "in_events inp"]
  by (auto simp: before_loop_def spawn_pipes_def nth_append)

lemma frame_before_loop:
  "fst (frame cr inp (g, dk)) =
     collision cr (update_bird
       (fst (update_pipes (in_write inp) (in_dt inp) (before_loop inp g, dk))) (in_dt inp))"
  by (simp add: frame_fst before_loop_def)

lemma pipes_update_bird: "pipes (update_bird g d) = pipes g"
  by (simp add: update_bird_def)

lemma pipes_collision: "pipes (collision cr g) = pipes g"
  by (simp add: collision_def Let_def)

lemma score_update_bird: "score (update_bird g d) = score g"
  by (simp add: update_bird_def)

lemma score_collision: "score (collision cr g) = score g"
  by (simp add: collision_def Let_def)

lemma pipes_frame:
  "pipes (fst (frame cr inp (g, dk))) =
     drop (loop_pops inp (g, dk))
       (map (pipe_frame (bird_x (bird (before_loop inp g))) (in_dt inp)) (pipes (before_loop inp g)))"
  using update_pipes_fields [of "in_write inp" "in_dt inp" "before_loop inp g" dk]
  by (simp add: frame_before_loop pipes_collision pipes_update_bird loop_pops_def Let_def)

lemma score_frame:
  "score (fst (frame cr inp (g, dk))) =
     score (before_loop inp g) +
     int (length (filter (score_event (bird_x (bird (before_loop inp g))) (in_dt inp))
                    (pipes (before_loop inp g))))"
  using update_pipes_fields [of "in_write inp" "in_dt inp" "before_loop inp g" dk]
  by (simp add: frame_before_loop score_collision score_update_bird)

lemma passed_pipe_score_count:
  "i < length (pipes (fst gd)) \<Longrightarrow> passed (pipes (fst gd) ! i) \<Longrightarrow>
     pipe_score_count cr inps gd i = 0"
proof (induction inps arbitrary: gd i)
  case Nil
  show ?case by simp
next
  case (Cons inp inps)
  obtain g dk where gd: "gd = (g, dk)" by (cases gd)
  let ?g2 = "before_loop inp g"
  let ?bx = "bird_x (bird ?g2)"
  show ?case
  proof (cases "running g \<and> i < length (pipes (process_events g (in_events inp)))")
    case False
    then show ?thesis by (auto simp: gd)
  next
    case True
    then have nth: "pipes ?g2 ! i = pipes g ! i" and len: "i < length (pipes ?g2)"
      using pipes_before_loop_nth [of i g inp] by simp_all
    have pass: "passed (pipes ?g2 ! i)" using Cons.prems by (simp add: nth gd)
    then have noev: "\<not> score_event ?bx (in_dt inp) (pipes ?g2 ! i)"
      by (rule passed_no_score_event)
    have rest: "pipe_score_count cr inps (frame cr inp (g, dk)) (i - loop_pops inp (g, dk)) = 0"
      if ge: "\<not> i < loop_pops inp (g, dk)"
    proof (rule Cons.IH)
      show "i - loop_pops inp (g, dk) < length (pipes (fst (frame cr inp (g, dk))))"
        using ge len by (simp add: pipes_frame)
      have "pipes (fst (frame cr inp (g, dk))) ! (i - loop_pops inp (g, dk))
              = pipe_frame ?bx (in_dt inp) (pipes ?g2 ! i)"
        using ge len by (simp add: pipes_frame)
      then show "passed (pipes (fst (frame cr inp (g, dk))) ! (i - loop_pops inp (g, dk)))"
        using pass by (simp add: passed_pipe_frame)
    qed
    show ?thesis using True noev rest by (simp add: gd)
  qed
qed

lemma pipe_score_count_le_1: "pipe_score_count cr inps gd i \<le> 1"
proof (induction inps arbitrary: gd i)
  case Nil
  show ?case by simp
next
  case (Cons inp inps)
  obtain g dk where gd: "gd = (g, dk)" by (cases gd)
  let ?g2 = "before_loop inp g"
  let ?bx = "bird_x (bird ?g2)"
  show ?case
  proof (cases "running g \<and> i < length (pipes (process_events g (in_events inp)))")
    case False
    then show ?thesis by (auto simp: gd)
  next
    case True
    then have len: "i < length (pipes ?g2)"
      using pipes_before_loop_nth [of i g inp] by simp
    show ?thesis
    proof (cases "score_event ?bx (in_dt inp) (pipes ?g2 ! i)")
      case ev: True
      have "pipe_score_count cr inps (frame cr inp (g, dk)) (i - loop_pops inp (g, dk)) = 0"
        if ge: "\<not> i < loop_pops inp (g, dk)"
      proof (rule passed_pipe_score_count)
        show "i - loop_pops inp (g, dk) < length (pipes (fst (frame cr inp (g, dk))))"
          using ge len by (simp add: pipes_frame)
        have "pipes (fst (frame cr inp (g, dk))) ! (i - loop_pops inp (g, dk))
                = pipe_frame ?bx (in_dt inp) (pipes ?g2 ! i)"
          using ge len by (simp add: pipes_frame)
        then show "passed (pipes (fst (frame cr inp (g, dk))) ! (i - loop_pops inp (g, dk)))"
          using ev by (simp add: score_event_sets_passed)
      qed
      then show ?thesis using True ev by (simp add: gd)
    next
      case False
      then show ?thesis
        using True Cons.IH [of "frame cr inp (g, dk)" "i - loop_pops inp (g, dk)"]
        by (simp add: gd)
    qed
  qed
qed

lemma score_process_events:
  "score (process_events g evs) = score g \<or> score (process_events g evs) = 0"
proof (induction g evs rule: process_events.induct)
  case (3 g k ticks evs)
  have k: "score (on_key g k ticks) = score g \<or> score (on_key g k ticks) = 0"
    by (simp add: on_key_def on_space_def restart_def Let_def)
  show ?case
  proof (cases "k = K_ESCAPE")
    case True
    then show ?thesis by simp
  next
    case False
    with 3 have "score (process_events (on_key g k ticks) evs) = score (on_key g k ticks) \<or>
        score (process_events (on_key g k ticks) evs) = 0" by simp
    with k False show ?thesis by auto
  qed
qed simp_all

lemma score_before_loop: "score (before_loop inp g) = score g \<or> score (before_loop inp g) = 0"
  using score_process_events [of g "in_events inp"]
  by (simp add: before_loop_def spawn_pipes_def)

text \<open>
  C7. A pass of the loop body raises the score for a pipe exactly when the pipe
  is not yet marked passed and its right edge, after the move of this pass, is
  strictly left of the bird's \<open>x\<close>; the pass then marks the pipe passed. A pipe
  marked passed stays marked and raises the score in no later pass, so over any
  run of passes a pipe raises the score at most once. In the loop of the game,
  the pipes after the loop are the pipes before it, each after one such pass,
  without those popped at the head, and the score has grown by the number of
  pipes that raised it.

  The same holds of whole frames. Before the loop a frame leaves the score as it
  was or, on a restart, sets it to 0; the frame then raises it by the number of
  pipes whose test fires, and by nothing else. The deque a frame leaves holds the
  pipes the loop started with, each after one pass, flags as the pass set them,
  without those popped. Hence over any run of frames, whatever the inputs, the
  pipe at any place of the deque raises the score at most once between the first
  frame and the restart or pop that ends its life, and never if it is already
  marked passed.
\<close>

theorem scoring_exactly_once:
  "(score_event bx d p \<longleftrightarrow>
      \<not> passed p \<and> pipe_x p - PIPE_SPEED + of_int (pipe_w p) < of_int bx) \<and>
   (score_event bx d p \<longrightarrow> passed (pipe_frame bx d p)) \<and>
   (passed p \<longrightarrow>
      passed (pipe_frame bx d p) \<and> \<not> score_event bx d p \<and> score_events bx ds p = 0) \<and>
   score_events bx ds p \<le> 1 \<and>
   (\<exists>n. pipes (fst (update_pipes wr d (g, dk))) =
          drop n (map (pipe_frame (bird_x (bird g)) d) (pipes g))) \<and>
   score (fst (update_pipes wr d (g, dk))) =
     score g + int (length (filter (score_event (bird_x (bird g)) d) (pipes g))) \<and>
   (score (before_loop inp g) = score g \<or> score (before_loop inp g) = 0) \<and>
   score (fst (frame cr inp (g, dk))) =
     score (before_loop inp g) +
     int (length (filter (score_event (bird_x (bird (before_loop inp g))) (in_dt inp))
                    (pipes (before_loop inp g)))) \<and>
   pipes (fst (frame cr inp (g, dk))) =
     drop (loop_pops inp (g, dk))
       (map (pipe_frame (bird_x (bird (before_loop inp g))) (in_dt inp))
          (pipes (before_loop inp g))) \<and>
   pipe_score_count cr inps (g, dk) i \<le> 1 \<and>
   (i < length (pipes g) \<and> passed (pipes g ! i) \<longrightarrow> pipe_score_count cr inps (g, dk) i = 0)"
proof (intro conjI impI)
  show "score_event bx d p \<longleftrightarrow>
      \<not> passed p \<and> pipe_x p - PIPE_SPEED + of_int (pipe_w p) < of_int bx"
    by (rule score_event_iff)
  show "score_events bx ds p \<le> 1" by (rule score_events_le_1)
  show "\<exists>n. pipes (fst (update_pipes wr d (g, dk))) =
          drop n (map (pipe_frame (bird_x (bird g)) d) (pipes g))"
    using update_pipes_fields [of wr d g dk] by blast
  show "score (fst (update_pipes wr d (g, dk))) =
     score g + int (length (filter (score_event (bird_x (bird g)) d) (pipes g)))"
    using update_pipes_fields [of wr d g dk] by blast
  show "score (before_loop inp g) = score g \<or> score (before_loop inp g) = 0"
    by (rule score_before_loop)
  show "score (fst (frame cr inp (g, dk))) =
     score (before_loop inp g) +
     int (length (filter (score_event (bird_x (bird (before_loop inp g))) (in_dt inp))
                    (pipes (before_loop inp g))))"
    by (rule score_frame)
  show "pipes (fst (frame cr inp (g, dk))) =
     drop (loop_pops inp (g, dk))
       (map (pipe_frame (bird_x (bird (before_loop inp g))) (in_dt inp))
          (pipes (before_loop inp g)))"
    by (rule pipes_frame)
  show "pipe_score_count cr inps (g, dk) i \<le> 1" by (rule pipe_score_count_le_1)
next
  assume "score_event bx d p"
  then show "passed (pipe_frame bx d p)" by (rule score_event_sets_passed)
next
  assume "passed p"
  then show "passed (pipe_frame bx d p)" by (rule passed_pipe_frame)
next
  assume "passed p"
  then show "\<not> score_event bx d p" by (rule passed_no_score_event)
next
  assume "passed p"
  then show "score_events bx ds p = 0" by (rule passed_score_events)
next
  assume "i < length (pipes g) \<and> passed (pipes g ! i)"
  then show "pipe_score_count cr inps (g, dk) i = 0"
    using passed_pipe_score_count [of i "(g, dk)" cr inps] by simp
qed

theorem scoring_exactly_once_witness:
  "score_event 100 (1 / 60) ((Pipe_init 500 300)\<lparr> pipe_x := 14.9 \<rparr>) \<and>
   passed (pipe_frame 100 (1 / 60) ((Pipe_init 500 300)\<lparr> pipe_x := 14.9 \<rparr>)) \<and>
   score_events 100 [1 / 60, 1 / 60, 1 / 60]
     (pipe_frame 100 (1 / 60) ((Pipe_init 500 300)\<lparr> pipe_x := 14.9 \<rparr>)) = 0 \<and>
   score_events 100 [1 / 60, 1 / 60, 1 / 60, 1 / 60]
     ((Pipe_init 500 300)\<lparr> pipe_x := 14.9 \<rparr>) = 1 \<and>
   pipe_score_count overlap [quiet_frame, quiet_frame, quiet_frame] (dead_game, None) 0 = 1 \<and>
   pipe_score_count overlap [quiet_frame, quiet_frame, quiet_frame]
     (frame overlap quiet_frame (dead_game, None)) 0 = 0"
proof -
  let ?p = "(Pipe_init 500 300)\<lparr> pipe_x := 14.9 \<rparr>"
  let ?run = "[quiet_frame, quiet_frame, quiet_frame]"
  have ev: "score_event 100 (1 / 60) ?p"
    by (simp add: score_event_def scores_def Pipe_update_def Pipe_init_def config_defs)
  have ps: "passed (pipe_frame 100 (1 / 60) ?p)"
    using scoring_exactly_once [of 100 "1 / 60" ?p] ev by blast
  have none: "score_events 100 [1 / 60, 1 / 60, 1 / 60] (pipe_frame 100 (1 / 60) ?p) = 0"
    using scoring_exactly_once [of 100 "1 / 60" "pipe_frame 100 (1 / 60) ?p" "[1 / 60, 1 / 60, 1 / 60]"] ps
    by blast
  have ge: "1 \<le> pipe_score_count overlap ?run (dead_game, None) 0"
    by (simp add: before_loop_def quiet_frame_def dead_game_def spawn_pipes_def score_event_def
        scores_def Pipe_update_def Pipe_init_def config_defs)
  have le: "pipe_score_count overlap ?run (dead_game, None) 0 \<le> 1"
    using scoring_exactly_once [where cr = overlap and inps = ?run and g = dead_game
        and dk = None and i = 0]
    by blast
  have one: "pipe_score_count overlap ?run (dead_game, None) 0 = 1"
    using ge le by linarith
  have after: "pipe_score_count overlap ?run (frame overlap quiet_frame (dead_game, None)) 0 = 0"
    using scoring_exactly_once [where cr = overlap and inps = ?run
        and g = "fst (frame overlap quiet_frame (dead_game, None))"
        and dk = "snd (frame overlap quiet_frame (dead_game, None))" and i = 0]
    by (simp add: dead_frame)
  show ?thesis using ev ps none one after by simp
qed

section \<open>High score file\<close>

lemma load_highscore_total: "\<exists>n. load_highscore parse rd = Inr n"
  by (simp add: load_highscore_def split: sum.split)

lemma save_highscore_returns: "snd (save_highscore d v w) = Inr ()"
  by (simp add: save_highscore_def save_highscore_try_def split: write_outcome.split)

text \<open>
  C8. \<^verbatim>\<open>load_highscore\<close> returns on every input and never raises; it returns 0
  when the file cannot be opened, when it cannot be read, and when \<^verbatim>\<open>int\<close>
  rejects its content. \<^verbatim>\<open>save_highscore\<close> returns normally whether the write
  succeeds or fails. The game state after a frame is the same whatever the writes
  of the frame do and whatever the file holds.
\<close>

theorem highscore_file_never_raises:
  "(\<exists>n. load_highscore parse rd = Inr n) \<and>
   load_highscore parse OpenError = Inr 0 \<and>
   load_highscore parse ReadError = Inr 0 \<and>
   (parse (strip content) = None \<longrightarrow> load_highscore parse (ReadOk content) = Inr 0) \<and>
   snd (save_highscore dk0 v w) = Inr () \<and>
   fst (frame cr (inp\<lparr> in_write := wr' \<rparr>) (g, dk')) = fst (frame cr inp (g, dk))"
proof (intro conjI impI)
  show "\<exists>n. load_highscore parse rd = Inr n" by (rule load_highscore_total)
  show "load_highscore parse OpenError = Inr 0"
    by (simp add: load_highscore_def load_highscore_try_def)
  show "load_highscore parse ReadError = Inr 0"
    by (simp add: load_highscore_def load_highscore_try_def)
  show "snd (save_highscore dk0 v w) = Inr ()" by (rule save_highscore_returns)
  show "fst (frame cr (inp\<lparr> in_write := wr' \<rparr>) (g, dk')) = fst (frame cr inp (g, dk))"
    by (rule frame_game_part)
next
  assume "parse (strip content) = None"
  then show "load_highscore parse (ReadOk content) = Inr 0"
    by (simp add: load_highscore_def load_highscore_try_def Let_def)
qed

theorem highscore_file_never_raises_witness:
  "py_int (strip ''12x'') = None \<and>
   load_highscore py_int (ReadOk ''12x'') = Inr 0 \<and>
   load_highscore py_int OpenError = Inr 0 \<and>
   save_highscore (Some ''7'') 8 WriteFails = (Some [], Inr ()) \<and>
   fst (frame overlap (quiet_frame\<lparr> in_write := (\<lambda>i. WriteFails) \<rparr>) (dead_game, Some ''7''))
     = fst (frame overlap quiet_frame (dead_game, None))"
proof -
  have bad: "py_int (strip ''12x'') = None"
    by (simp add: py_int_def strip_def isspace_def digit_val_def)
  have sv: "save_highscore (Some ''7'') 8 WriteFails = (Some [], Inr ())"
    by (simp add: save_highscore_def save_highscore_try_def)
  show ?thesis
    using bad sv
      highscore_file_never_raises [where parse = py_int and rd = OpenError
        and content = "''12x''" and ?dk0.0 = "Some ''7''" and v = 8 and w = WriteFails
        and cr = overlap and inp = quiet_frame and wr' = "\<lambda>i. WriteFails"
        and g = dead_game and dk' = "Some ''7''" and dk = None]
    by simp
qed

section \<open>Restart\<close>

lemma init_game_idle:
  "\<exists>g. init_game parse rd t0 = Inr g \<and> session_state g = Idle \<and> score g = 0 \<and>
        bird g = Bird_init \<and> pipes g = []"
proof -
  obtain h where "load_highscore parse rd = Inr h"
    using load_highscore_total [of parse rd] by blast
  then show ?thesis by (simp add: init_game_def session_state_def)
qed

lemma on_key_restart:
  "game_over g \<Longrightarrow> k = K_SPACE \<or> k = K_r \<Longrightarrow> on_key g k t = restart g t"
  by (auto simp: on_key_def on_space_def restart_def Let_def)

lemma restart_frame:
  assumes "game_over g" and "k = K_SPACE \<or> k = K_r" and "now - t \<le> PIPE_INTERVAL"
  shows "fst (frame cr \<lparr> in_dt = d, in_events = [(KEYDOWN k, t)], in_now = now, in_gap = r,
                          in_write = wr \<rparr> (g, dk))
         = (restart g t)\<lparr> bird := Bird_update Bird_init d \<rparr>"
proof -
  have ev: "process_events g [(KEYDOWN k, t)] = restart g t"
    using assms(1,2) by (auto simp: on_key_restart)
  have sp: "spawn_pipes (restart g t) now r = restart g t"
    using assms(3) by (simp add: spawn_pipes_def restart_def)
  have up: "fst (update_pipes wr d (restart g t, dk)) = restart g t"
    by (simp add: update_pipes_def restart_def)
  have ub: "update_bird (restart g t) d = (restart g t)\<lparr> bird := Bird_update Bird_init d \<rparr>"
    by (simp add: update_bird_def restart_def)
  have co: "collision cr ((restart g t)\<lparr> bird := Bird_update Bird_init d \<rparr>)
            = (restart g t)\<lparr> bird := Bird_update Bird_init d \<rparr>"
    by (simp add: collision_def restart_def Let_def Bird_update_def Bird_init_def clamp_def
        config_defs)
  show ?thesis by (simp add: frame_fst ev sp up ub co del: process_events.simps)
qed

text \<open>
  C9. In the GameOver state the space key and the R key do the same: the session
  is Running afterwards, the score is 0, the bird is a fresh \<^verbatim>\<open>Bird()\<close>, the
  pipe deque is empty and the spawn timer is set to the current tick count;
  nothing else of the state changes. A frame whose only event is such a key,
  with the clock not yet past the spawn interval, ends Running with score 0, no
  pipes, and the fresh bird moved by its first update.
\<close>

theorem restart_from_game_over:
  assumes "game_over g" and "k = K_SPACE \<or> k = K_r"
  shows "session_state g = GameOver \<and>
         process_events g [(KEYDOWN k, t)] = on_key g k t \<and>
         on_key g k t = g\<lparr> pipes := [], last_pipe_time := t, score := 0, bird := Bird_init,
                           started := True, game_over := False \<rparr> \<and>
         session_state (on_key g k t) = Running \<and>
         score (on_key g k t) = 0 \<and>
         bird (on_key g k t) = Bird_init \<and>
         pipes (on_key g k t) = [] \<and>
         last_pipe_time (on_key g k t) = t \<and>
         (now - t \<le> PIPE_INTERVAL \<longrightarrow>
            fst (frame cr \<lparr> in_dt = d, in_events = [(KEYDOWN k, t)], in_now = now, in_gap = r,
                             in_write = wr \<rparr> (g, dk))
            = (on_key g k t)\<lparr> bird := Bird_update Bird_init d \<rparr>)"
proof -
  have k: "on_key g k t = restart g t" using assms by (rule on_key_restart)
  have esc: "k \<noteq> K_ESCAPE" using assms(2) by auto
  have fr: "now - t \<le> PIPE_INTERVAL \<Longrightarrow>
      fst (frame cr \<lparr> in_dt = d, in_events = [(KEYDOWN k, t)], in_now = now, in_gap = r,
                       in_write = wr \<rparr> (g, dk))
      = (restart g t)\<lparr> bird := Bird_update Bird_init d \<rparr>"
    using assms by (rule restart_frame)
  show ?thesis
    using assms(1) esc fr by (simp add: k session_state_def restart_def)
qed

theorem restart_from_game_over_witness:
  "game_over dead_game \<and> session_state dead_game = GameOver \<and>
   session_state (on_key dead_game K_r 5000) = Running \<and>
   score (on_key dead_game K_SPACE 5000) = 0 \<and>
   bird (on_key dead_game K_SPACE 5000) = Bird_init \<and>
   pipes (on_key dead_game K_r 5000) = [] \<and>
   last_pipe_time (on_key dead_game K_r 5000) = 5000 \<and>
   pipes (fst (frame overlap (quiet_frame\<lparr> in_events := [(KEYDOWN K_r, 5000)], in_now := 5001 \<rparr>)
                 (dead_game, None))) = []"
proof -
  have go: "game_over dead_game" by (simp add: dead_game_def)
  have fr: "quiet_frame\<lparr> in_events := [(KEYDOWN K_r, 5000)], in_now := 5001 \<rparr>
      = \<lparr> in_dt = 1 / 60, in_events = [(KEYDOWN K_r, 5000)], in_now = 5001, in_gap = 200,
          in_write = (\<lambda>i. WriteOk) \<rparr>"
    by (simp add: quiet_frame_def)
  show ?thesis
    using go
      restart_from_game_over [OF go, of K_r 5000 5001 overlap "1 / 60" 200 "\<lambda>i. WriteOk" None]
      restart_from_game_over [OF go, of K_SPACE 5000]
    by (simp add: fr PIPE_INTERVAL_def session_state_def)
qed

section \<open>Frames in the GameOver state\<close>

lemma process_events_no_restart:
  assumes "\<forall>e \<in> set evs. fst e \<noteq> KEYDOWN K_SPACE \<and> fst e \<noteq> KEYDOWN K_r"
  shows "process_events g evs = g \<or> process_events g evs = g\<lparr> running := False \<rparr>"
  using assms
proof (induction g evs rule: process_events.induct)
  case (3 g k ticks evs)
  then show ?case by (cases k) (simp_all add: on_key_def)
qed simp_all

text \<open>
  What a frame in the GameOver state leaves alone when no restart key is
  pressed: the bird's position, velocity and angle, and the GameOver state
  itself.
\<close>

lemma game_over_frame_bird_frozen:
  assumes "game_over g"
    and "\<forall>e \<in> set (in_events inp). fst e \<noteq> KEYDOWN K_SPACE \<and> fst e \<noteq> KEYDOWN K_r"
  shows "bird_x (bird (fst (frame cr inp (g, dk)))) = bird_x (bird g) \<and>
         bird_y (bird (fst (frame cr inp (g, dk)))) = bird_y (bird g) \<and>
         vel (bird (fst (frame cr inp (g, dk)))) = vel (bird g) \<and>
         angle (bird (fst (frame cr inp (g, dk)))) = angle (bird g) \<and>
         game_over (fst (frame cr inp (g, dk)))"
proof -
  let ?g1 = "process_events g (in_events inp)"
  have g1: "bird ?g1 = bird g \<and> game_over ?g1"
    using process_events_no_restart [OF assms(2), of g] assms(1) by auto
  let ?g2 = "spawn_pipes ?g1 (in_now inp) (in_gap inp)"
  have g2: "bird ?g2 = bird g \<and> game_over ?g2"
    using g1 by (simp add: spawn_pipes_def)
  let ?g3 = "fst (update_pipes (in_write inp) (in_dt inp) (?g2, dk))"
  have g3: "bird ?g3 = bird g \<and> game_over ?g3"
    using g2 by (simp add: update_pipes_fields)
  show ?thesis
    using g3 by (simp add: frame_fst collision_def update_bird_def)
qed

text \<open>
  C1 fails on the code. The pipe loop of lines 281--290 is not guarded by the
  flags, unlike the spawn, the bird update and the collision test around it, so
  in the GameOver state the pipes keep moving and keep scoring. In the sample
  state the bird has crashed with the pipe's right edge at 102.9; one frame
  without input later the pipe stands at 11.6 instead of 14.9, is marked passed,
  and score and best score are 1 instead of 0.
\<close>

theorem game_over_frame_moves_and_scores:
  "session_state dead_game = GameOver \<and>
   map pipe_x (pipes dead_game) = [14.9, 351.5] \<and>
   map pipe_x (pipes (fst (frame overlap quiet_frame (dead_game, None)))) = [11.6, 348.2] \<and>
   map passed (pipes dead_game) = [False, False] \<and>
   map passed (pipes (fst (frame overlap quiet_frame (dead_game, None)))) = [True, False] \<and>
   score dead_game = 0 \<and>
   score (fst (frame overlap quiet_frame (dead_game, None))) = 1 \<and>
   session_state (fst (frame overlap quiet_frame (dead_game, None))) = GameOver"
  by (simp add: dead_frame session_state_def) (simp add: dead_game_def Pipe_init_def)

end
